theory Spec2Isabelle
  imports Complex_Main "HOL-Library.Sublist"
begin

section \<open>The OTX ETL connector (etl_connector.py)\<close>

text \<open>
  A shallow embedding of class \<open>OTXETLConnector\<close>: \<open>extract_data\<close>, \<open>transform_data\<close>,
  \<open>load_data\<close> and \<open>run_etl_pipeline\<close>. Every method is a function from the state of the
  world before the call to its outcome and the state after it. An outcome is a sum:
  \<open>Inr v\<close> is "returned \<open>v\<close>", \<open>Inl e\<close> is "raised \<open>e\<close>".
\<close>

subsection \<open>Python values\<close>

text \<open>
  The values \<open>response.json()\<close> can produce. \<open>PyNone\<close> is both JSON \<open>null\<close> and Python's
  \<open>None\<close>, the failure sentinel of \<open>extract_data\<close>. A dict is the list of its items in
  insertion order (keys are pairwise distinct in a Python dict). A float is given by its
  value; NaN and the infinities are not represented.
\<close>

datatype pyval =
    PyNone
  | PyBool bool
  | PyInt int
  | PyFloat rat
  | PyStr string
  | PyList "pyval list"
  | PyDict "(string \<times> pyval) list"

datatype exn =
    RequestException
  | JSONDecodeError
  | AttributeError
  | TypeError
  | KeyError
  | PyMongoError

text \<open>\<open>bool(v)\<close>, as \<open>not raw_data\<close> tests it.\<close>

fun py_truthy :: "pyval \<Rightarrow> bool" where
  "py_truthy PyNone = False"
| "py_truthy (PyBool b) = b"
| "py_truthy (PyInt i) = (i \<noteq> 0)"
| "py_truthy (PyFloat q) = (q \<noteq> 0)"
| "py_truthy (PyStr s) = (s \<noteq> [])"
| "py_truthy (PyList xs) = (xs \<noteq> [])"
| "py_truthy (PyDict kvs) = (kvs \<noteq> [])"

text \<open>\<open>v.get(k, d)\<close>: only a dict has the method.\<close>

fun py_get :: "pyval \<Rightarrow> string \<Rightarrow> pyval \<Rightarrow> exn + pyval" where
  "py_get (PyDict kvs) k d = Inr (case map_of kvs k of Some x \<Rightarrow> x | None \<Rightarrow> d)"
| "py_get v k d = Inl AttributeError"

text \<open>\<open>len(v)\<close>: strings, lists and dicts are sized; \<open>None\<close>, booleans and numbers are not.\<close>

fun py_len :: "pyval \<Rightarrow> exn + nat" where
  "py_len (PyStr s) = Inr (length s)"
| "py_len (PyList xs) = Inr (length xs)"
| "py_len (PyDict kvs) = Inr (length kvs)"
| "py_len v = Inl TypeError"

fun substring :: "string \<Rightarrow> string \<Rightarrow> bool" where
  "substring s [] = (s = [])"
| "substring s (c # cs) = (prefix s (c # cs) \<or> substring s cs)"

text \<open>\<open>k in v\<close> for a string \<open>k\<close>: key of a dict, element of a list, substring of a string.\<close>

fun py_contains :: "string \<Rightarrow> pyval \<Rightarrow> exn + bool" where
  "py_contains k (PyDict kvs) = Inr (k \<in> set (map fst kvs))"
| "py_contains k (PyList xs) = Inr (PyStr k \<in> set xs)"
| "py_contains k (PyStr s) = Inr (substring k s)"
| "py_contains k v = Inl TypeError"

text \<open>\<open>v[k]\<close> for a string \<open>k\<close>.\<close>

fun py_getitem :: "pyval \<Rightarrow> string \<Rightarrow> exn + pyval" where
  "py_getitem (PyDict kvs) k = (case map_of kvs k of Some x \<Rightarrow> Inr x | None \<Rightarrow> Inl KeyError)"
| "py_getitem v k = Inl TypeError"

text \<open>The items a \<open>for\<close> loop over \<open>v\<close> visits: a dict yields its keys, a string its characters.\<close>

fun py_iter :: "pyval \<Rightarrow> exn + pyval list" where
  "py_iter (PyList xs) = Inr xs"
| "py_iter (PyDict kvs) = Inr (map (\<lambda>kv. PyStr (fst kv)) kvs)"
| "py_iter (PyStr s) = Inr (map (\<lambda>c. PyStr [c]) s)"
| "py_iter v = Inl TypeError"

definition bind_r :: "exn + 'a \<Rightarrow> ('a \<Rightarrow> exn + 'b) \<Rightarrow> exn + 'b" where
  "bind_r x f = (case x of Inl e \<Rightarrow> Inl e | Inr v \<Rightarrow> f v)"

subsection \<open>Documents, events and the world\<close>

text \<open>The dict literal of \<open>transform_data\<close>, lines 70 to 88, one field per key.\<close>

record doc =
  pulse_id :: pyval
  name :: pyval
  description :: pyval
  author_name :: pyval
  created :: pyval
  modified :: pyval
  tags :: pyval
  references :: pyval
  public :: pyval
  indicators_count :: nat
  indicators :: pyval
  malware_families :: pyval
  attack_ids :: pyval
  ingestion_timestamp :: int
  source :: string
  raw_data :: pyval

text \<open>The lines the methods print; the text of a caught exception is left out.\<close>

datatype msg =
    MsgExtracting string
  | MsgRateLimit
  | MsgExtracted nat
  | MsgExtractError
  | MsgJSONError
  | MsgNoDataToTransform
  | MsgTransformError
  | MsgTransformed nat
  | MsgNoDataToLoad
  | MsgLoaded nat
  | MsgLoadError
  | MsgStarting
  | MsgExtractPhase
  | MsgExtractionFailed
  | MsgTransformPhase
  | MsgTransformationFailed
  | MsgLoadPhase
  | MsgComplete
  | MsgDuration int
  | MsgProcessed nat

datatype event =
    Print msg
  | HttpGet string int
  | Sleep nat
  | InsertMany "doc list"

datatype body = NotJSON | Parsed pyval

record response =
  status_code :: nat
  content :: body

datatype http_outcome = TransportFailure | Answer response

text \<open>
  The world: the remote API answers the \<open>n\<close>-th request with \<open>http_oracle n\<close>, the clock
  reads \<open>clock_oracle n\<close> at its \<open>n\<close>-th reading, and the store maps the collection's
  contents and a batch to the outcome of \<open>insert_many\<close> and the contents afterwards (which
  may hold a part of the batch when the insert fails). \<open>trace\<close> lists every effect so far.
\<close>

record world =
  http_oracle :: "nat \<Rightarrow> http_outcome"
  http_count :: nat
  clock_oracle :: "nat \<Rightarrow> int"
  clock_count :: nat
  store_oracle :: "doc list \<Rightarrow> doc list \<Rightarrow> (exn + nat list) \<times> doc list"
  collection :: "doc list"
  trace :: "event list"

definition emit :: "event \<Rightarrow> world \<Rightarrow> world" where
  "emit e w = w\<lparr>trace := trace w @ [e]\<rparr>"

text \<open>\<open>datetime.now(timezone.utc)\<close>\<close>

definition now :: "world \<Rightarrow> int \<times> world" where
  "now w = (clock_oracle w (clock_count w), w\<lparr>clock_count := Suc (clock_count w)\<rparr>)"

text \<open>
  \<open>requests.get(url, headers=self.headers, params={'limit': limit})\<close>: a transport
  failure is a \<open>RequestException\<close>. The headers never change and are left out of the
  event.
\<close>

definition requests_get :: "string \<Rightarrow> int \<Rightarrow> world \<Rightarrow> (exn + response) \<times> world" where
  "requests_get url limit w =
     ((case http_oracle w (http_count w) of
         TransportFailure \<Rightarrow> Inl RequestException
       | Answer r \<Rightarrow> Inr r),
      emit (HttpGet url limit) (w\<lparr>http_count := Suc (http_count w)\<rparr>))"

text \<open>\<open>response.raise_for_status()\<close>: an \<open>HTTPError\<close>, a \<open>RequestException\<close>, for 4xx and 5xx.\<close>

definition raise_for_status :: "response \<Rightarrow> exn + unit" where
  "raise_for_status r =
     (if 400 \<le> status_code r \<and> status_code r < 600 then Inl RequestException else Inr ())"

text \<open>
  \<open>response.json()\<close>. Which of the two \<open>except\<close> clauses catches its error depends
  on the version of the library (a recent one raises a subclass of both classes); the
  returned value is \<open>None\<close> either way, only the printed line differs.
\<close>

definition response_json :: "response \<Rightarrow> exn + pyval" where
  "response_json r = (case content r of NotJSON \<Rightarrow> Inl JSONDecodeError | Parsed v \<Rightarrow> Inr v)"

text \<open>\<open>self.collection.insert_many(docs)\<close>, giving \<open>result.inserted_ids\<close>.\<close>

definition insert_many :: "doc list \<Rightarrow> world \<Rightarrow> (exn + nat list) \<times> world" where
  "insert_many ds w =
     (case store_oracle w (collection w) ds of
        (r, c) \<Rightarrow> (r, emit (InsertMany ds) (w\<lparr>collection := c\<rparr>)))"

subsection \<open>extract_data\<close>

definition base_url :: string where
  "base_url = ''https://otx.alienvault.com''"

text \<open>Lines 46 to 49: the checks on the response, and the length the log line needs.\<close>

definition parse_response :: "response \<Rightarrow> exn + (pyval \<times> nat)" where
  "parse_response r =
     bind_r (raise_for_status r) (\<lambda>u.
     bind_r (response_json r) (\<lambda>data.
     bind_r (bind_r (py_get data ''results'' (PyList [])) py_len) (\<lambda>n.
     Inr (data, n))))"

text \<open>Lines 46 to 50: what the \<open>try\<close> block does with the response it ends up with.\<close>

definition after_response :: "response \<Rightarrow> world \<Rightarrow> (exn + pyval) \<times> world" where
  "after_response r w =
     (case parse_response r of
        Inl e \<Rightarrow> (Inl e, w)
      | Inr (data, n) \<Rightarrow> (Inr data, emit (Print (MsgExtracted n)) w))"

text \<open>Lines 34 to 50: the \<open>try\<close> block.\<close>

definition extract_try :: "string \<Rightarrow> int \<Rightarrow> world \<Rightarrow> (exn + pyval) \<times> world" where
  "extract_try endpoint limit w =
     (let url = base_url @ endpoint in
      case requests_get url limit (emit (Print (MsgExtracting url)) w) of
        (Inl e, w1) \<Rightarrow> (Inl e, w1)
      | (Inr r, w1) \<Rightarrow>
          (case (if status_code r = 429
                 then requests_get url limit (emit (Sleep 60) (emit (Print MsgRateLimit) w1))
                 else (Inr r, w1)) of
             (Inl e, w2) \<Rightarrow> (Inl e, w2)
           | (Inr r2, w2) \<Rightarrow> after_response r2 w2))"

text \<open>The two \<open>except\<close> clauses, lines 52 to 57; any other exception leaves the method.\<close>

definition extract_except :: "(exn + pyval) \<times> world \<Rightarrow> (exn + pyval) \<times> world" where
  "extract_except out =
     (case out of
        (Inl RequestException, w1) \<Rightarrow> (Inr PyNone, emit (Print MsgExtractError) w1)
      | (Inl JSONDecodeError, w1) \<Rightarrow> (Inr PyNone, emit (Print MsgJSONError) w1)
      | (r, w1) \<Rightarrow> (r, w1))"

definition extract_data :: "string \<Rightarrow> int \<Rightarrow> world \<Rightarrow> (exn + pyval) \<times> world" where
  "extract_data endpoint limit w = extract_except (extract_try endpoint limit w)"

subsection \<open>transform_data\<close>

text \<open>
  The fields of the dict literal that come before \<open>ingestion_timestamp\<close>, evaluated in the
  source's order; the result still waits for the clock's reading.
\<close>

definition record_fields :: "pyval \<Rightarrow> exn + (int \<Rightarrow> doc)" where
  "record_fields pulse =
     bind_r (py_get pulse ''id'' PyNone) (\<lambda>v_id.
     bind_r (py_get pulse ''name'' (PyStr [])) (\<lambda>v_name.
     bind_r (py_get pulse ''description'' (PyStr [])) (\<lambda>v_description.
     bind_r (py_get pulse ''author_name'' (PyStr [])) (\<lambda>v_author.
     bind_r (py_get pulse ''created'' PyNone) (\<lambda>v_created.
     bind_r (py_get pulse ''modified'' PyNone) (\<lambda>v_modified.
     bind_r (py_get pulse ''tags'' (PyList [])) (\<lambda>v_tags.
     bind_r (py_get pulse ''references'' (PyList [])) (\<lambda>v_references.
     bind_r (py_get pulse ''public'' (PyBool False)) (\<lambda>v_public.
     bind_r (bind_r (py_get pulse ''indicators'' (PyList [])) py_len) (\<lambda>v_count.
     bind_r (py_get pulse ''indicators'' (PyList [])) (\<lambda>v_indicators.
     bind_r (py_get pulse ''malware_families'' (PyList [])) (\<lambda>v_malware.
     bind_r (py_get pulse ''attack_ids'' (PyList [])) (\<lambda>v_attack.
     Inr (\<lambda>t. \<lparr>pulse_id = v_id, name = v_name, description = v_description,
               author_name = v_author, created = v_created, modified = v_modified,
               tags = v_tags, references = v_references, public = v_public,
               indicators_count = v_count, indicators = v_indicators,
               malware_families = v_malware, attack_ids = v_attack,
               ingestion_timestamp = t, source = ''otx_alienvault'',
               raw_data = pulse\<rparr>))))))))))))))"

text \<open>The body of the \<open>try\<close> inside the loop, up to the \<open>append\<close>.\<close>

definition transform_record :: "pyval \<Rightarrow> world \<Rightarrow> (exn + doc) \<times> world" where
  "transform_record pulse w =
     (case record_fields pulse of
        Inl e \<Rightarrow> (Inl e, w)
      | Inr mk \<Rightarrow> (case now w of (t, w1) \<Rightarrow> (Inr (mk t), w1)))"

text \<open>The \<open>for\<close> loop, lines 67 to 94; \<open>acc\<close> is \<open>transformed_records\<close>.\<close>

fun transform_loop :: "pyval list \<Rightarrow> doc list \<Rightarrow> world \<Rightarrow> doc list \<times> world" where
  "transform_loop [] acc w = (acc, w)"
| "transform_loop (pulse # rest) acc w =
     (case transform_record pulse w of
        (Inr d, w1) \<Rightarrow> transform_loop rest (acc @ [d]) w1
      | (Inl e, w1) \<Rightarrow> transform_loop rest acc (emit (Print MsgTransformError) w1))"

definition transform_data :: "pyval \<Rightarrow> world \<Rightarrow> (exn + doc list) \<times> world" where
  "transform_data raw w =
     (if \<not> py_truthy raw then (Inr [], emit (Print MsgNoDataToTransform) w)
      else
        (case py_contains ''results'' raw of
           Inl e \<Rightarrow> (Inl e, w)
         | Inr False \<Rightarrow> (Inr [], emit (Print MsgNoDataToTransform) w)
         | Inr True \<Rightarrow>
             (case bind_r (py_getitem raw ''results'') py_iter of
                Inl e \<Rightarrow> (Inl e, w)
              | Inr pulses \<Rightarrow>
                  (case transform_loop pulses [] w of
                     (ds, w1) \<Rightarrow> (Inr ds, emit (Print (MsgTransformed (length ds))) w1)))))"

subsection \<open>load_data\<close>

text \<open>Lines 107 to 111: the \<open>try\<close> block.\<close>

definition load_try :: "doc list \<Rightarrow> world \<Rightarrow> (exn + nat) \<times> world" where
  "load_try ds w =
     (case insert_many ds w of
        (Inl e, w1) \<Rightarrow> (Inl e, w1)
      | (Inr ids, w1) \<Rightarrow> (Inr (length ids), emit (Print (MsgLoaded (length ids))) w1))"

text \<open>\<open>except Exception\<close> catches every exception of the model.\<close>

definition load_data :: "doc list \<Rightarrow> world \<Rightarrow> (exn + nat) \<times> world" where
  "load_data ds w =
     (if ds = [] then (Inr 0, emit (Print MsgNoDataToLoad) w)
      else
        (case load_try ds w of
           (Inl e, w1) \<Rightarrow> (Inr 0, emit (Print MsgLoadError) w1)
         | (Inr n, w1) \<Rightarrow> (Inr n, w1)))"

subsection \<open>run_etl_pipeline\<close>

definition default_endpoint :: string where
  "default_endpoint = ''/api/v1/pulses/subscribed''"

definition default_limit :: int where
  "default_limit = 50"

text \<open>What the orchestrator does before it calls \<open>extract_data\<close>, lines 119 to 123.\<close>

definition pipeline_start :: "world \<Rightarrow> int \<times> world" where
  "pipeline_start w =
     (case now (emit (Print MsgStarting) w) of
        (start_time, w1) \<Rightarrow> (start_time, emit (Print MsgExtractPhase) w1))"

text \<open>Lines 142 to 149.\<close>

definition pipeline_finish :: "int \<Rightarrow> nat \<Rightarrow> world \<Rightarrow> (exn + bool) \<times> world" where
  "pipeline_finish start_time loaded_count w =
     (case now w of
        (end_time, w1) \<Rightarrow>
          (Inr (0 < loaded_count),
           emit (Print (MsgProcessed loaded_count))
             (emit (Print (MsgDuration (end_time - start_time)))
                (emit (Print MsgComplete) w1))))"

definition run_etl_pipeline :: "world \<Rightarrow> (exn + bool) \<times> world" where
  "run_etl_pipeline w =
     (case pipeline_start w of
        (start_time, w0) \<Rightarrow>
          (case extract_data default_endpoint default_limit w0 of
             (Inl e, w1) \<Rightarrow> (Inl e, w1)
           | (Inr raw, w1) \<Rightarrow>
               if \<not> py_truthy raw then (Inr False, emit (Print MsgExtractionFailed) w1)
               else
                 (case transform_data raw (emit (Print MsgTransformPhase) w1) of
                    (Inl e, w2) \<Rightarrow> (Inl e, w2)
                  | (Inr ds, w2) \<Rightarrow>
                      if ds = [] then (Inr False, emit (Print MsgTransformationFailed) w2)
                      else
                        (case load_data ds (emit (Print MsgLoadPhase) w2) of
                           (Inl e, w3) \<Rightarrow> (Inl e, w3)
                         | (Inr loaded_count, w3) \<Rightarrow>
                             pipeline_finish start_time loaded_count w3))))"


subsection \<open>Notions the properties are stated with\<close>

text \<open>A record raises during mapping when the dict literal cannot be built from it.\<close>

definition raises_in_mapping :: "pyval \<Rightarrow> bool" where
  "raises_in_mapping pulse = isl (record_fields pulse)"

text \<open>
  The documents the loop appends, given the clock's readings: the \<open>n\<close>-th reading stamps
  the first record that maps, the next one the second, and so on.
\<close>

fun build_docs :: "(nat \<Rightarrow> int) \<Rightarrow> nat \<Rightarrow> pyval list \<Rightarrow> doc list" where
  "build_docs clk n [] = []"
| "build_docs clk n (pulse # rest) =
     (case record_fields pulse of
        Inl e \<Rightarrow> build_docs clk n rest
      | Inr mk \<Rightarrow> mk (clk n) # build_docs clk (Suc n) rest)"

text \<open>
  The spec's reading of the transformer as a filter-map: the document of a record with the
  timestamp left at 0, or nothing when the mapping raises.
\<close>

definition map_pulse :: "pyval \<Rightarrow> doc option" where
  "map_pulse pulse = (case record_fields pulse of Inl e \<Rightarrow> None | Inr mk \<Rightarrow> Some (mk 0))"

definition strip_time :: "doc \<Rightarrow> doc" where
  "strip_time d = d\<lparr>ingestion_timestamp := 0\<rparr>"

text \<open>The method an effect comes from: every printed line belongs to exactly one.\<close>

datatype origin = ByExtract | ByTransform | ByLoad | ByOrchestrator

fun origin_of :: "event \<Rightarrow> origin" where
  "origin_of (HttpGet url limit) = ByExtract"
| "origin_of (Sleep n) = ByExtract"
| "origin_of (InsertMany ds) = ByLoad"
| "origin_of (Print (MsgExtracting url)) = ByExtract"
| "origin_of (Print MsgRateLimit) = ByExtract"
| "origin_of (Print (MsgExtracted n)) = ByExtract"
| "origin_of (Print MsgExtractError) = ByExtract"
| "origin_of (Print MsgJSONError) = ByExtract"
| "origin_of (Print MsgNoDataToTransform) = ByTransform"
| "origin_of (Print MsgTransformError) = ByTransform"
| "origin_of (Print (MsgTransformed n)) = ByTransform"
| "origin_of (Print MsgNoDataToLoad) = ByLoad"
| "origin_of (Print (MsgLoaded n)) = ByLoad"
| "origin_of (Print MsgLoadError) = ByLoad"
| "origin_of (Print m) = ByOrchestrator"

definition events_by :: "origin \<Rightarrow> world \<Rightarrow> event list" where
  "events_by k w = filter (\<lambda>e. origin_of e = k) (trace w)"

text \<open>Sample stores, worlds and records, for the concrete instances below.\<close>

definition accepting_store :: "doc list \<Rightarrow> doc list \<Rightarrow> (exn + nat list) \<times> doc list" where
  "accepting_store c ds = (Inr (map fst (enumerate (length c) ds)), c @ ds)"

definition failing_store :: "doc list \<Rightarrow> doc list \<Rightarrow> (exn + nat list) \<times> doc list" where
  "failing_store c ds = (Inl PyMongoError, c)"

definition sample_world ::
  "http_outcome list \<Rightarrow> (doc list \<Rightarrow> doc list \<Rightarrow> (exn + nat list) \<times> doc list) \<Rightarrow> world" where
  "sample_world replies store =
     \<lparr>http_oracle = (\<lambda>n. if n < length replies then replies ! n else TransportFailure),
      http_count = 0, clock_oracle = (\<lambda>n. 1000 + int n), clock_count = 0,
      store_oracle = store, collection = [], trace = []\<rparr>"

definition ok_response :: "pyval \<Rightarrow> http_outcome" where
  "ok_response v = Answer \<lparr>status_code = 200, content = Parsed v\<rparr>"

definition rate_limited :: http_outcome where
  "rate_limited = Answer \<lparr>status_code = 429, content = NotJSON\<rparr>"

definition sample_pulse :: pyval where
  "sample_pulse =
     PyDict [(''id'', PyStr ''p1''), (''name'', PyStr ''X''),
             (''indicators'', PyList [PyDict [(''a'', PyInt 1)], PyDict [(''a'', PyInt 2)]])]"

definition malformed_pulse :: pyval where
  "malformed_pulse = PyDict [(''id'', PyStr ''p2''), (''indicators'', PyNone)]"

definition sample_body :: pyval where
  "sample_body = PyDict [(''results'', PyList [sample_pulse])]"

definition sample_doc :: "int \<Rightarrow> doc" where
  "sample_doc t =
     \<lparr>pulse_id = PyStr ''p1'', name = PyStr ''X'', description = PyStr [],
      author_name = PyStr [], created = PyNone, modified = PyNone, tags = PyList [],
      references = PyList [], public = PyBool False, indicators_count = 2,
      indicators = PyList [PyDict [(''a'', PyInt 1)], PyDict [(''a'', PyInt 2)]],
      malware_families = PyList [], attack_ids = PyList [], ingestion_timestamp = t,
      source = ''otx_alienvault'', raw_data = sample_pulse\<rparr>"

text \<open>
  The outcome of the request \<open>extract_data\<close> ends with: the retry's when the first
  response has status 429, the first one's otherwise.
\<close>

definition final_outcome :: "world \<Rightarrow> http_outcome" where
  "final_outcome w =
     (case http_oracle w (http_count w) of
        TransportFailure \<Rightarrow> TransportFailure
      | Answer r \<Rightarrow>
          if status_code r = 429 then http_oracle w (Suc (http_count w)) else Answer r)"

lemma emit_simps:
  "trace (emit e w) = trace w @ [e]"
  "collection (emit e w) = collection w"
  "clock_count (emit e w) = clock_count w"
  "clock_oracle (emit e w) = clock_oracle w"
  "http_count (emit e w) = http_count w"
  "http_oracle (emit e w) = http_oracle w"
  "store_oracle (emit e w) = store_oracle w"
  by (simp_all add: emit_def)

lemma record_fields_dict:
  "record_fields (PyDict kvs) =
     (case py_len (case map_of kvs ''indicators'' of Some x \<Rightarrow> x | None \<Rightarrow> PyList []) of
        Inl e \<Rightarrow> Inl e
      | Inr n \<Rightarrow> Inr (\<lambda>t. \<lparr>pulse_id = (case map_of kvs ''id'' of Some x \<Rightarrow> x | None \<Rightarrow> PyNone),
           name = (case map_of kvs ''name'' of Some x \<Rightarrow> x | None \<Rightarrow> PyStr []),
           description = (case map_of kvs ''description'' of Some x \<Rightarrow> x | None \<Rightarrow> PyStr []),
           author_name = (case map_of kvs ''author_name'' of Some x \<Rightarrow> x | None \<Rightarrow> PyStr []),
           created = (case map_of kvs ''created'' of Some x \<Rightarrow> x | None \<Rightarrow> PyNone),
           modified = (case map_of kvs ''modified'' of Some x \<Rightarrow> x | None \<Rightarrow> PyNone),
           tags = (case map_of kvs ''tags'' of Some x \<Rightarrow> x | None \<Rightarrow> PyList []),
           references = (case map_of kvs ''references'' of Some x \<Rightarrow> x | None \<Rightarrow> PyList []),
           public = (case map_of kvs ''public'' of Some x \<Rightarrow> x | None \<Rightarrow> PyBool False),
           indicators_count = n,
           indicators = (case map_of kvs ''indicators'' of Some x \<Rightarrow> x | None \<Rightarrow> PyList []),
           malware_families = (case map_of kvs ''malware_families'' of Some x \<Rightarrow> x | None \<Rightarrow> PyList []),
           attack_ids = (case map_of kvs ''attack_ids'' of Some x \<Rightarrow> x | None \<Rightarrow> PyList []),
           ingestion_timestamp = t, source = ''otx_alienvault'',
           raw_data = PyDict kvs\<rparr>))"
  by (simp add: record_fields_def bind_r_def split: sum.splits)

lemma record_fields_not_dict:
  "(\<forall>kvs. pulse \<noteq> PyDict kvs) \<Longrightarrow> record_fields pulse = Inl AttributeError"
  by (cases pulse) (simp_all add: record_fields_def bind_r_def)

lemma record_fields_Inr:
  assumes "record_fields pulse = Inr mk"
  shows "raw_data (mk t) = pulse"
    and "py_len (indicators (mk t)) = Inr (indicators_count (mk t))"
    and "source (mk t) = ''otx_alienvault''"
    and "ingestion_timestamp (mk t) = t"
proof -
  obtain kvs where p: "pulse = PyDict kvs"
    using assms record_fields_not_dict by (metis Inl_Inr_False)
  from assms show "raw_data (mk t) = pulse" "py_len (indicators (mk t)) = Inr (indicators_count (mk t))"
    "source (mk t) = ''otx_alienvault''" "ingestion_timestamp (mk t) = t"
    unfolding p record_fields_dict by (auto split: sum.splits)
qed

lemma record_fields_time:
  assumes "record_fields pulse = Inr mk"
  shows "(mk t)\<lparr>ingestion_timestamp := s\<rparr> = mk s"
proof -
  obtain kvs where p: "pulse = PyDict kvs"
    using assms record_fields_not_dict by (metis Inl_Inr_False)
  from assms show ?thesis
    unfolding p record_fields_dict by (auto split: sum.splits)
qed

lemma transform_loop_fst:
  "fst (transform_loop ps acc w) = acc @ build_docs (clock_oracle w) (clock_count w) ps"
  by (induction ps arbitrary: acc w)
     (simp_all add: transform_record_def now_def emit_simps split: sum.splits)

lemma transform_loop_docs:
  "transform_loop ps acc w = (ds, w1) \<Longrightarrow>
     ds = acc @ build_docs (clock_oracle w) (clock_count w) ps"
  using transform_loop_fst [of ps acc w] by simp

lemma transform_loop_trace:
  "trace (snd (transform_loop ps acc w)) =
     trace w @ replicate (length (filter raises_in_mapping ps)) (Print MsgTransformError)"
  by (induction ps arbitrary: acc w)
     (simp_all add: transform_record_def now_def emit_simps raises_in_mapping_def
        replicate_app_Cons_same split: sum.splits)

lemma build_docs_raw:
  "map raw_data (build_docs clk n ps) = filter (\<lambda>p. \<not> raises_in_mapping p) ps"
  by (induction ps arbitrary: n)
     (simp_all add: raises_in_mapping_def record_fields_Inr split: sum.splits)

lemma build_docs_filter_map:
  "map strip_time (build_docs clk n ps) = List.map_filter map_pulse ps"
  by (induction ps arbitrary: n)
     (simp_all add: map_filter_simps map_pulse_def strip_time_def record_fields_time
        split: sum.splits)

lemma build_docs_times:
  "map ingestion_timestamp (build_docs clk n ps) =
     map clk [n ..< n + length (build_docs clk n ps)]"
proof (induction ps arbitrary: n)
  case Nil
  show ?case by simp
next
  case (Cons p ps)
  show ?case
  proof (cases "record_fields p")
    case (Inl e)
    then show ?thesis using Cons.IH [of n] by simp
  next
    case (Inr mk)
    then show ?thesis
      using Cons.IH [of "Suc n"] by (simp add: record_fields_Inr upt_conv_Cons del: upt_Suc)
  qed
qed

lemma build_docs_derived:
  "d \<in> set (build_docs clk n ps) \<Longrightarrow>
     raw_data d \<in> set ps \<and> (\<exists>mk t. record_fields (raw_data d) = Inr mk \<and> d = mk t)"
proof (induction ps arbitrary: n)
  case Nil
  then show ?case by simp
next
  case (Cons p ps)
  show ?case
  proof (cases "record_fields p")
    case (Inl e)
    then show ?thesis using Cons by auto
  next
    case (Inr mk)
    then show ?thesis using Cons by (auto simp: record_fields_Inr)
  qed
qed

lemma transform_data_results:
  assumes "map_of kvs ''results'' = Some rs" and "py_iter rs = Inr pulses"
  shows "transform_data (PyDict kvs) w =
     (Inr (build_docs (clock_oracle w) (clock_count w) pulses),
      emit (Print (MsgTransformed (length (build_docs (clock_oracle w) (clock_count w) pulses))))
        (snd (transform_loop pulses [] w)))"
proof -
  have "(''results'', rs) \<in> set kvs" using assms(1) by (rule map_of_SomeD)
  then have "kvs \<noteq> []" and "''results'' \<in> fst ` set kvs" by force+
  then show ?thesis
    using assms transform_loop_fst [of pulses "[]" w]
    by (cases "transform_loop pulses [] w") (simp add: transform_data_def bind_r_def)
qed

lemma transform_data_returned:
  assumes "transform_data raw w = (Inr ds, w1)"
  shows "ds = [] \<or> (\<exists>pulses. bind_r (py_getitem raw ''results'') py_iter = Inr pulses \<and>
           ds = build_docs (clock_oracle w) (clock_count w) pulses)"
  using assms
  by (auto simp: transform_data_def dest: transform_loop_docs
        split: if_splits sum.splits bool.splits prod.splits)

lemma py_iter_len: "py_iter rs = Inr pulses \<Longrightarrow> py_len rs = Inr (length pulses)"
  by (cases rs) auto

lemma requests_get_snd:
  "snd (requests_get url limit w) = emit (HttpGet url limit) (w\<lparr>http_count := Suc (http_count w)\<rparr>)"
  by (simp add: requests_get_def)

lemma requests_get_fst:
  "fst (requests_get url limit w) =
     (case http_oracle w (http_count w) of
        TransportFailure \<Rightarrow> Inl RequestException
      | Answer r \<Rightarrow> Inr r)"
  by (simp add: requests_get_def)

lemma events_by_emit:
  "events_by k (emit e w) = events_by k w @ (if origin_of e = k then [e] else [])"
  by (simp add: events_by_def emit_def)

lemma events_by_update:
  "events_by k (w\<lparr>http_count := n\<rparr>) = events_by k w"
  "events_by k (w\<lparr>clock_count := n\<rparr>) = events_by k w"
  "events_by k (w\<lparr>collection := c\<rparr>) = events_by k w"
  by (simp_all add: events_by_def)

lemma extract_except_fst:
  "fst (extract_except out) =
     (case fst out of
        Inl RequestException \<Rightarrow> Inr PyNone
      | Inl JSONDecodeError \<Rightarrow> Inr PyNone
      | r \<Rightarrow> r)"
  by (cases out) (simp add: extract_except_def split: sum.splits exn.splits)

lemma extract_except_frame:
  "collection (snd (extract_except out)) = collection (snd out)"
  "clock_count (snd (extract_except out)) = clock_count (snd out)"
  "clock_oracle (snd (extract_except out)) = clock_oracle (snd out)"
  "store_oracle (snd (extract_except out)) = store_oracle (snd out)"
  "http_count (snd (extract_except out)) = http_count (snd out)"
  "k \<noteq> ByExtract \<Longrightarrow> events_by k (snd (extract_except out)) = events_by k (snd out)"
  by (cases out; simp add: extract_except_def emit_simps events_by_emit
        split: sum.splits exn.splits)+

lemma after_response_frame:
  "collection (snd (after_response r w)) = collection w"
  "clock_count (snd (after_response r w)) = clock_count w"
  "clock_oracle (snd (after_response r w)) = clock_oracle w"
  "store_oracle (snd (after_response r w)) = store_oracle w"
  "http_count (snd (after_response r w)) = http_count w"
  "k \<noteq> ByExtract \<Longrightarrow> events_by k (snd (after_response r w)) = events_by k w"
  by (simp_all add: after_response_def emit_simps events_by_emit split: sum.splits prod.splits)

lemma after_response_fst:
  "fst (after_response r w) = (case parse_response r of Inl e \<Rightarrow> Inl e | Inr p \<Rightarrow> Inr (fst p))"
  by (simp add: after_response_def split: sum.splits prod.splits)

lemma extract_try_frame:
  "collection (snd (extract_try endpoint limit w)) = collection w"
  "clock_count (snd (extract_try endpoint limit w)) = clock_count w"
  "clock_oracle (snd (extract_try endpoint limit w)) = clock_oracle w"
  "store_oracle (snd (extract_try endpoint limit w)) = store_oracle w"
  "k \<noteq> ByExtract \<Longrightarrow> events_by k (snd (extract_try endpoint limit w)) = events_by k w"
  by (simp_all add: extract_try_def requests_get_def Let_def after_response_frame emit_simps
        events_by_emit events_by_update split: http_outcome.splits)

lemma extract_data_frame:
  "collection (snd (extract_data endpoint limit w)) = collection w"
  "clock_count (snd (extract_data endpoint limit w)) = clock_count w"
  "clock_oracle (snd (extract_data endpoint limit w)) = clock_oracle w"
  "store_oracle (snd (extract_data endpoint limit w)) = store_oracle w"
  "k \<noteq> ByExtract \<Longrightarrow> events_by k (snd (extract_data endpoint limit w)) = events_by k w"
  by (simp_all add: extract_data_def extract_except_frame extract_try_frame)

lemma extract_try_fst:
  "fst (extract_try endpoint limit w) =
     (case final_outcome w of
        TransportFailure \<Rightarrow> Inl RequestException
      | Answer r \<Rightarrow> (case parse_response r of Inl e \<Rightarrow> Inl e | Inr p \<Rightarrow> Inr (fst p)))"
  by (simp add: extract_try_def requests_get_def final_outcome_def Let_def after_response_fst
        emit_simps split: http_outcome.splits)

lemma extract_data_fst:
  "fst (extract_data endpoint limit w) =
     (case final_outcome w of
        TransportFailure \<Rightarrow> Inr PyNone
      | Answer r \<Rightarrow>
          (case parse_response r of
             Inl RequestException \<Rightarrow> Inr PyNone
           | Inl JSONDecodeError \<Rightarrow> Inr PyNone
           | Inl e \<Rightarrow> Inl e
           | Inr p \<Rightarrow> Inr (fst p)))"
  by (simp add: extract_data_def extract_except_fst extract_try_fst
        split: http_outcome.splits sum.splits exn.splits)

lemma transform_loop_frame:
  "collection (snd (transform_loop ps acc w)) = collection w"
  "store_oracle (snd (transform_loop ps acc w)) = store_oracle w"
  "k \<noteq> ByTransform \<Longrightarrow> events_by k (snd (transform_loop ps acc w)) = events_by k w"
  by (induction ps arbitrary: acc w;
      simp add: transform_record_def now_def emit_simps events_by_emit events_by_update
        split: sum.splits)+

lemma transform_data_unfold:
  "transform_data raw w =
     (if \<not> py_truthy raw then (Inr [], emit (Print MsgNoDataToTransform) w)
      else
        (case py_contains ''results'' raw of
           Inl e \<Rightarrow> (Inl e, w)
         | Inr False \<Rightarrow> (Inr [], emit (Print MsgNoDataToTransform) w)
         | Inr True \<Rightarrow>
             (case bind_r (py_getitem raw ''results'') py_iter of
                Inl e \<Rightarrow> (Inl e, w)
              | Inr pulses \<Rightarrow>
                  (Inr (fst (transform_loop pulses [] w)),
                   emit (Print (MsgTransformed (length (fst (transform_loop pulses [] w)))))
                     (snd (transform_loop pulses [] w))))))"
  by (simp add: transform_data_def split: sum.splits bool.splits prod.splits)

lemma transform_data_frame:
  "collection (snd (transform_data raw w)) = collection w"
  "store_oracle (snd (transform_data raw w)) = store_oracle w"
  "k \<noteq> ByTransform \<Longrightarrow> events_by k (snd (transform_data raw w)) = events_by k w"
  by (simp_all add: transform_data_unfold emit_simps events_by_emit transform_loop_frame
        split: sum.splits bool.splits)

lemma record_fields_sample: "record_fields sample_pulse = Inr sample_doc"
  by (simp add: record_fields_def bind_r_def sample_pulse_def sample_doc_def fun_eq_iff)

lemma record_fields_malformed: "record_fields malformed_pulse = Inl TypeError"
  by (simp add: record_fields_def bind_r_def malformed_pulse_def)

lemma transform_sample:
  "fst (transform_data (PyDict [(''results'', PyList [sample_pulse, malformed_pulse, sample_pulse])])
          (sample_world [] accepting_store)) = Inr [sample_doc 1000, sample_doc 1001]"
  by (simp add: transform_data_def bind_r_def transform_record_def record_fields_sample
        record_fields_malformed now_def emit_def sample_world_def)

text \<open>
  C2. Every document \<open>transform_data\<close> returns satisfies
  \<open>indicators_count == len(indicators)\<close>, its \<open>raw_data\<close> is one of the records of
  \<open>results\<close>, and the document is what the mapping builds from that very record.
\<close>

theorem transform_data_document_invariant:
  assumes "transform_data raw w = (Inr ds, w1)" and "d \<in> set ds"
  shows "py_len (indicators d) = Inr (indicators_count d) \<and>
         (\<exists>pulses. bind_r (py_getitem raw ''results'') py_iter = Inr pulses \<and>
                   raw_data d \<in> set pulses) \<and>
         (\<exists>mk t. record_fields (raw_data d) = Inr mk \<and> d = mk t)"
proof -
  from transform_data_returned [OF assms(1)] assms(2)
  obtain pulses where p: "bind_r (py_getitem raw ''results'') py_iter = Inr pulses"
    and ds: "ds = build_docs (clock_oracle w) (clock_count w) pulses"
    by auto
  from build_docs_derived [of d "clock_oracle w" "clock_count w" pulses] assms(2) ds
  obtain mk t where raw: "raw_data d \<in> set pulses"
    and mk: "record_fields (raw_data d) = Inr mk" and d: "d = mk t"
    by auto
  have "py_len (indicators d) = Inr (indicators_count d)"
    unfolding d using mk by (rule record_fields_Inr)
  with p raw mk d show ?thesis by blast
qed

theorem transform_data_document_invariant_witness:
  "fst (transform_data (PyDict [(''results'', PyList [sample_pulse, malformed_pulse, sample_pulse])])
          (sample_world [] accepting_store)) = Inr [sample_doc 1000, sample_doc 1001] \<and>
   py_len (indicators (sample_doc 1001)) = Inr (indicators_count (sample_doc 1001)) \<and>
   raw_data (sample_doc 1001) = sample_pulse \<and>
   indicators_count (sample_doc 1001) = 2"
proof -
  let ?raw = "PyDict [(''results'', PyList [sample_pulse, malformed_pulse, sample_pulse])]"
  let ?w = "sample_world [] accepting_store"
  have run: "transform_data ?raw ?w =
      (Inr [sample_doc 1000, sample_doc 1001], snd (transform_data ?raw ?w))"
    using transform_sample by (simp add: prod_eq_iff)
  have mem: "sample_doc 1001 \<in> set [sample_doc 1000, sample_doc 1001]" by simp
  from transform_data_document_invariant [OF run mem] transform_sample
  show ?thesis by (simp add: sample_doc_def)
qed

text \<open>
  C6. When the input is falsy (\<open>None\<close> included) or is a dict without the key
  \<open>results\<close>, \<open>transform_data\<close> returns the empty list; it does not raise, and all it
  does is print one line.
\<close>

theorem transform_data_nothing_to_transform:
  assumes "\<not> py_truthy raw \<or> (\<exists>kvs. raw = PyDict kvs \<and> ''results'' \<notin> fst ` set kvs)"
  shows "transform_data raw w = (Inr [], emit (Print MsgNoDataToTransform) w)"
  using assms by (auto simp: transform_data_def)

theorem transform_data_nothing_to_transform_witness:
  "transform_data PyNone (sample_world [] accepting_store) =
     (Inr [], emit (Print MsgNoDataToTransform) (sample_world [] accepting_store)) \<and>
   transform_data (PyDict [(''count'', PyInt 3)]) (sample_world [] accepting_store) =
     (Inr [], emit (Print MsgNoDataToTransform) (sample_world [] accepting_store))"
proof -
  have a: "\<not> py_truthy PyNone \<or> (\<exists>kvs. PyNone = PyDict kvs \<and> ''results'' \<notin> fst ` set kvs)"
    by simp
  have b: "\<not> py_truthy (PyDict [(''count'', PyInt 3)]) \<or>
     (\<exists>kvs. PyDict [(''count'', PyInt 3)] = PyDict kvs \<and> ''results'' \<notin> fst ` set kvs)"
    by simp
  from transform_data_nothing_to_transform [OF a] transform_data_nothing_to_transform [OF b]
  show ?thesis by simp
qed


text \<open>
  C3. For a response whose \<open>results\<close> can be iterated, \<open>transform_data\<close> returns, the
  number of documents is at most \<open>len(r['results'])\<close>, with equality exactly when no record
  raises during mapping; the records that do not raise are all transformed, whatever the
  others do, and each record that raises costs one logged line.
\<close>

theorem transform_data_isolates_records:
  assumes "map_of kvs ''results'' = Some rs" and "py_iter rs = Inr pulses"
  shows "\<exists>ds. fst (transform_data (PyDict kvs) w) = Inr ds \<and>
           py_len rs = Inr (length pulses) \<and>
           length ds \<le> length pulses \<and>
           (length ds = length pulses \<longleftrightarrow> (\<forall>p\<in>set pulses. \<not> raises_in_mapping p)) \<and>
           map raw_data ds = filter (\<lambda>p. \<not> raises_in_mapping p) pulses \<and>
           events_by ByTransform (snd (transform_data (PyDict kvs) w)) =
             events_by ByTransform w
               @ replicate (length (filter raises_in_mapping pulses)) (Print MsgTransformError)
               @ [Print (MsgTransformed (length ds))]"
proof -
  let ?ok = "\<lambda>p. \<not> raises_in_mapping p"
  let ?ds = "build_docs (clock_oracle w) (clock_count w) pulses"
  let ?w1 = "snd (transform_data (PyDict kvs) w)"
  have run: "fst (transform_data (PyDict kvs) w) = Inr ?ds"
    by (simp add: transform_data_results [OF assms])
  have raw: "map raw_data ?ds = filter ?ok pulses" by (rule build_docs_raw)
  have len: "length ?ds = length (filter ?ok pulses)"
    using raw by (metis length_map)
  have le: "length ?ds \<le> length pulses" by (simp add: len)
  have "length (filter ?ok pulses) + length (filter raises_in_mapping pulses) = length pulses"
    using sum_length_filter_compl [of ?ok pulses] by simp
  then have "length ?ds = length pulses \<longleftrightarrow> filter raises_in_mapping pulses = []"
    using len by auto
  then have eq: "length ?ds = length pulses \<longleftrightarrow> (\<forall>p\<in>set pulses. ?ok p)"
    by (simp add: filter_empty_conv)
  have tr: "trace ?w1 = trace w
      @ replicate (length (filter raises_in_mapping pulses)) (Print MsgTransformError)
      @ [Print (MsgTransformed (length ?ds))]"
    by (simp add: transform_data_results [OF assms] transform_loop_trace emit_simps)
  have ev: "events_by ByTransform ?w1 = events_by ByTransform w
      @ replicate (length (filter raises_in_mapping pulses)) (Print MsgTransformError)
      @ [Print (MsgTransformed (length ?ds))]"
    by (simp add: events_by_def tr)
  from run py_iter_len [OF assms(2)] le eq raw ev show ?thesis by blast
qed

theorem transform_data_isolates_records_witness:
  "fst (transform_data (PyDict [(''results'', PyList [sample_pulse, malformed_pulse, sample_pulse])])
          (sample_world [] accepting_store)) = Inr [sample_doc 1000, sample_doc 1001] \<and>
   length [sample_doc 1000, sample_doc 1001] < length [sample_pulse, malformed_pulse, sample_pulse] \<and>
   raises_in_mapping malformed_pulse \<and>
   map raw_data [sample_doc 1000, sample_doc 1001] = [sample_pulse, sample_pulse] \<and>
   events_by ByTransform
     (snd (transform_data (PyDict [(''results'', PyList [sample_pulse, malformed_pulse, sample_pulse])])
             (sample_world [] accepting_store)))
     = [Print MsgTransformError, Print (MsgTransformed 2)]"
proof -
  have a: "map_of [(''results'', PyList [sample_pulse, malformed_pulse, sample_pulse])] ''results''
      = Some (PyList [sample_pulse, malformed_pulse, sample_pulse])"
    by simp
  have b: "py_iter (PyList [sample_pulse, malformed_pulse, sample_pulse])
      = Inr [sample_pulse, malformed_pulse, sample_pulse]"
    by simp
  have c: "raises_in_mapping malformed_pulse" "\<not> raises_in_mapping sample_pulse"
    by (simp_all add: raises_in_mapping_def record_fields_sample record_fields_malformed)
  have d: "events_by ByTransform (sample_world [] accepting_store) = []"
    by (simp add: events_by_def sample_world_def)
  have e: "raw_data (sample_doc t) = sample_pulse" for t
    by (simp add: sample_doc_def)
  from transform_data_isolates_records [OF a b, of "sample_world [] accepting_store"]
  show ?thesis by (auto simp: c d e transform_sample)
qed

text \<open>
  C7. \<open>transform_data\<close> is an order-preserving filter-map over \<open>results\<close>: up to the
  ingestion timestamps its result is \<open>map_filter map_pulse\<close> of the records, the raw
  records of the result are a subsequence of the input, and the timestamps are the
  clock's successive readings.
\<close>

theorem transform_data_preserves_order:
  assumes "map_of kvs ''results'' = Some rs" and "py_iter rs = Inr pulses"
  shows "\<exists>ds. fst (transform_data (PyDict kvs) w) = Inr ds \<and>
           map strip_time ds = List.map_filter map_pulse pulses \<and>
           subseq (map raw_data ds) pulses \<and>
           map ingestion_timestamp ds =
             map (clock_oracle w) [clock_count w ..< clock_count w + length ds]"
proof -
  let ?ds = "build_docs (clock_oracle w) (clock_count w) pulses"
  have run: "fst (transform_data (PyDict kvs) w) = Inr ?ds"
    by (simp add: transform_data_results [OF assms])
  have fm: "map strip_time ?ds = List.map_filter map_pulse pulses"
    by (rule build_docs_filter_map)
  have sub: "subseq (map raw_data ?ds) pulses"
    by (simp add: build_docs_raw)
  have ts: "map ingestion_timestamp ?ds =
      map (clock_oracle w) [clock_count w ..< clock_count w + length ?ds]"
    by (rule build_docs_times)
  from run fm sub ts show ?thesis by blast
qed

theorem transform_data_preserves_order_witness:
  "fst (transform_data (PyDict [(''results'', PyList [sample_pulse, malformed_pulse, sample_pulse])])
          (sample_world [] accepting_store)) = Inr [sample_doc 1000, sample_doc 1001] \<and>
   map strip_time [sample_doc 1000, sample_doc 1001] = [sample_doc 0, sample_doc 0] \<and>
   List.map_filter map_pulse [sample_pulse, malformed_pulse, sample_pulse]
     = [sample_doc 0, sample_doc 0] \<and>
   subseq (map raw_data [sample_doc 1000, sample_doc 1001])
     [sample_pulse, malformed_pulse, sample_pulse]"
proof -
  have a: "map_of [(''results'', PyList [sample_pulse, malformed_pulse, sample_pulse])] ''results''
      = Some (PyList [sample_pulse, malformed_pulse, sample_pulse])"
    by simp
  have b: "py_iter (PyList [sample_pulse, malformed_pulse, sample_pulse])
      = Inr [sample_pulse, malformed_pulse, sample_pulse]"
    by simp
  have c: "map_pulse sample_pulse = Some (sample_doc 0)" "map_pulse malformed_pulse = None"
    by (simp_all add: map_pulse_def record_fields_sample record_fields_malformed)
  have d: "sample_pulse \<noteq> malformed_pulse"
    by (simp add: sample_pulse_def malformed_pulse_def)
  have e: "raw_data (sample_doc t) = sample_pulse" for t
    by (simp add: sample_doc_def)
  from transform_data_preserves_order [OF a b, of "sample_world [] accepting_store"]
  show ?thesis by (auto simp: c d e transform_sample)
qed

text \<open>
  C8. \<open>load_data\<close> on the empty list returns 0; the collection is untouched and no
  \<open>insert_many\<close> is issued: the only effect is one printed line.
\<close>

theorem load_data_empty_batch:
  "load_data [] w = (Inr 0, emit (Print MsgNoDataToLoad) w) \<and>
   collection (snd (load_data [] w)) = collection w \<and>
   (\<forall>ds. InsertMany ds \<notin> set (drop (length (trace w)) (trace (snd (load_data [] w)))))"
  by (simp add: load_data_def emit_simps)

text \<open>
  C9. For a non-empty batch, \<open>load_data\<close> returns 0 when \<open>insert_many\<close> raises, whatever
  the exception, and the number of inserted ids when it succeeds; it never raises.
\<close>

theorem load_data_contains_store_errors:
  assumes "ds \<noteq> []"
  shows "(\<forall>e w1. insert_many ds w = (Inl e, w1) \<longrightarrow>
            load_data ds w = (Inr 0, emit (Print MsgLoadError) w1)) \<and>
         (\<forall>ids w1. insert_many ds w = (Inr ids, w1) \<longrightarrow>
            load_data ds w = (Inr (length ids), emit (Print (MsgLoaded (length ids))) w1)) \<and>
         (\<exists>n. fst (load_data ds w) = Inr n)"
  using assms by (auto simp: load_data_def load_try_def split: prod.splits sum.splits)

theorem load_data_contains_store_errors_witness:
  "fst (load_data [sample_doc 7] (sample_world [] failing_store)) = Inr 0 \<and>
   fst (load_data [sample_doc 7] (sample_world [] accepting_store)) = Inr 1"
proof -
  have ne: "[sample_doc 7] \<noteq> []" by simp
  have f: "insert_many [sample_doc 7] (sample_world [] failing_store) =
      (Inl PyMongoError, snd (insert_many [sample_doc 7] (sample_world [] failing_store)))"
    by (simp add: insert_many_def sample_world_def failing_store_def)
  have a: "insert_many [sample_doc 7] (sample_world [] accepting_store) =
      (Inr [0], snd (insert_many [sample_doc 7] (sample_world [] accepting_store)))"
    by (simp add: insert_many_def sample_world_def accepting_store_def)
  from load_data_contains_store_errors [OF ne, of "sample_world [] failing_store"] f
  have "fst (load_data [sample_doc 7] (sample_world [] failing_store)) = Inr 0"
    by (metis fst_conv)
  moreover from load_data_contains_store_errors [OF ne, of "sample_world [] accepting_store"] a
  have "fst (load_data [sample_doc 7] (sample_world [] accepting_store)) = Inr (length [0::nat])"
    by (metis fst_conv)
  ultimately show ?thesis by simp
qed


lemma extract_except_trace:
  "trace (snd (extract_except out)) =
     trace (snd out) @
       (case fst out of
          Inl RequestException \<Rightarrow> [Print MsgExtractError]
        | Inl JSONDecodeError \<Rightarrow> [Print MsgJSONError]
        | r \<Rightarrow> [])"
  by (cases out) (simp add: extract_except_def emit_simps split: sum.splits exn.splits)

lemma after_response_trace:
  "trace (snd (after_response r w)) =
     trace w @ (case parse_response r of Inl e \<Rightarrow> [] | Inr p \<Rightarrow> [Print (MsgExtracted (snd p))])"
  by (simp add: after_response_def emit_simps split: sum.splits prod.splits)

lemma extract_try_retry:
  assumes "http_oracle w (http_count w) = Answer r1" and "status_code r1 = 429"
  shows "http_count (snd (extract_try endpoint limit w)) = http_count w + 2"
    and "trace (snd (extract_try endpoint limit w)) =
           trace w @ [Print (MsgExtracting (base_url @ endpoint)),
                      HttpGet (base_url @ endpoint) limit,
                      Print MsgRateLimit, Sleep 60,
                      HttpGet (base_url @ endpoint) limit]
           @ (case http_oracle w (Suc (http_count w)) of
                TransportFailure \<Rightarrow> []
              | Answer r2 \<Rightarrow>
                  (case parse_response r2 of
                     Inl e \<Rightarrow> []
                   | Inr p \<Rightarrow> [Print (MsgExtracted (snd p))]))"
  using assms
  by (simp_all add: extract_try_def requests_get_def Let_def emit_simps after_response_frame
        after_response_trace split: http_outcome.splits)

lemma final_outcome_retry:
  "http_oracle w (http_count w) = Answer r1 \<Longrightarrow> status_code r1 = 429 \<Longrightarrow>
     final_outcome w = http_oracle w (Suc (http_count w))"
  by (simp add: final_outcome_def)

lemma final_outcome_direct:
  "\<forall>r. http_oracle w (http_count w) = Answer r \<longrightarrow> status_code r \<noteq> 429 \<Longrightarrow>
     final_outcome w = http_oracle w (http_count w)"
  by (simp add: final_outcome_def split: http_outcome.splits)

lemma parse_response_rate_limited:
  "status_code r = 429 \<Longrightarrow> parse_response r = Inl RequestException"
  by (simp add: parse_response_def raise_for_status_def bind_r_def)

text \<open>
  C5. When the first response has status 429, \<open>extract_data\<close> prints, sleeps 60 seconds
  and issues the same request once more, and no other request; the result is the one a
  call would give whose first response is the retry's response, and \<open>None\<close> when the retry
  is answered with 429 again.
\<close>

theorem extract_data_rate_limit_retry:
  assumes "http_oracle w (http_count w) = Answer r1" and "status_code r1 = 429"
  shows "http_count (snd (extract_data endpoint limit w)) = http_count w + 2 \<and>
         (\<exists>tail. trace (snd (extract_data endpoint limit w)) =
                   trace w @ [Print (MsgExtracting (base_url @ endpoint)),
                              HttpGet (base_url @ endpoint) limit,
                              Print MsgRateLimit, Sleep 60,
                              HttpGet (base_url @ endpoint) limit] @ tail \<and>
                 (\<forall>x\<in>set tail. \<exists>m. x = Print m)) \<and>
         (\<forall>r2. http_oracle w (Suc (http_count w)) = Answer r2 \<and> status_code r2 = 429 \<longrightarrow>
               fst (extract_data endpoint limit w) = Inr PyNone) \<and>
         (\<forall>w'. http_oracle w' (http_count w') = http_oracle w (Suc (http_count w)) \<and>
               (\<forall>r2. http_oracle w' (http_count w') = Answer r2 \<longrightarrow> status_code r2 \<noteq> 429) \<longrightarrow>
               fst (extract_data endpoint limit w') = fst (extract_data endpoint limit w))"
proof -
  let ?out = "extract_try endpoint limit w"
  have count: "http_count (snd (extract_data endpoint limit w)) = http_count w + 2"
    by (simp add: extract_data_def extract_except_frame extract_try_retry [OF assms])
  have tr: "trace (snd (extract_data endpoint limit w)) =
      trace w @ [Print (MsgExtracting (base_url @ endpoint)),
                 HttpGet (base_url @ endpoint) limit,
                 Print MsgRateLimit, Sleep 60,
                 HttpGet (base_url @ endpoint) limit]
      @ ((case http_oracle w (Suc (http_count w)) of
            TransportFailure \<Rightarrow> []
          | Answer r2 \<Rightarrow>
              (case parse_response r2 of
                 Inl e \<Rightarrow> []
               | Inr p \<Rightarrow> [Print (MsgExtracted (snd p))]))
         @ (case fst ?out of
              Inl RequestException \<Rightarrow> [Print MsgExtractError]
            | Inl JSONDecodeError \<Rightarrow> [Print MsgJSONError]
            | r \<Rightarrow> []))"
    (is "_ = _ @ _ @ ?tail")
    by (simp add: extract_data_def extract_except_trace extract_try_retry [OF assms])
  have prints: "\<forall>x\<in>set ?tail. \<exists>m. x = Print m"
  proof -
    have "\<forall>x\<in>set (case http_oracle w (Suc (http_count w)) of
            TransportFailure \<Rightarrow> []
          | Answer r2 \<Rightarrow>
              (case parse_response r2 of
                 Inl e \<Rightarrow> []
               | Inr p \<Rightarrow> [Print (MsgExtracted (snd p))])). \<exists>m. x = Print m"
      by (auto split: http_outcome.splits sum.splits)
    moreover have "\<forall>x\<in>set (case fst ?out of
              Inl RequestException \<Rightarrow> [Print MsgExtractError]
            | Inl JSONDecodeError \<Rightarrow> [Print MsgJSONError]
            | r \<Rightarrow> []). \<exists>m. x = Print m"
      by (cases "fst ?out"; simp) (rename_tac e, case_tac e; simp)
    ultimately show ?thesis by auto
  qed
  have again: "fst (extract_data endpoint limit w) = Inr PyNone"
    if "http_oracle w (Suc (http_count w)) = Answer r2" and "status_code r2 = 429" for r2
    using that
    by (simp add: extract_data_fst final_outcome_retry [OF assms] parse_response_rate_limited)
  have same: "fst (extract_data endpoint limit w') = fst (extract_data endpoint limit w)"
    if "http_oracle w' (http_count w') = http_oracle w (Suc (http_count w))"
      and "\<forall>r2. http_oracle w' (http_count w') = Answer r2 \<longrightarrow> status_code r2 \<noteq> 429" for w'
    using that
    by (simp add: extract_data_fst final_outcome_retry [OF assms] final_outcome_direct)
  from count tr prints again same show ?thesis by blast
qed

lemma extract_after_retry:
  "fst (extract_data default_endpoint default_limit
          (sample_world [ok_response sample_body] accepting_store)) = Inr sample_body"
  by (simp add: extract_data_fst final_outcome_def sample_world_def ok_response_def
        parse_response_def raise_for_status_def response_json_def bind_r_def sample_body_def)

theorem extract_data_rate_limit_retry_witness:
  "fst (extract_data default_endpoint default_limit
          (sample_world [rate_limited, ok_response sample_body] accepting_store)) = Inr sample_body \<and>
   http_count (snd (extract_data default_endpoint default_limit
          (sample_world [rate_limited, ok_response sample_body] accepting_store))) = 2 \<and>
   fst (extract_data default_endpoint default_limit
          (sample_world [rate_limited, rate_limited] accepting_store)) = Inr PyNone"
proof -
  let ?r = "\<lparr>status_code = 429, content = NotJSON\<rparr>"
  let ?w = "sample_world [rate_limited, ok_response sample_body] accepting_store"
  let ?v = "sample_world [rate_limited, rate_limited] accepting_store"
  let ?u = "sample_world [ok_response sample_body] accepting_store"
  have a: "http_oracle ?w (http_count ?w) = Answer ?r"
    by (simp add: sample_world_def rate_limited_def)
  have b: "http_oracle ?v (http_count ?v) = Answer ?r"
    by (simp add: sample_world_def rate_limited_def)
  have c: "status_code ?r = 429" by simp
  have d: "http_oracle ?v (Suc (http_count ?v)) = Answer ?r \<and> status_code ?r = 429"
    by (simp add: sample_world_def rate_limited_def)
  have e: "http_oracle ?u (http_count ?u) = http_oracle ?w (Suc (http_count ?w)) \<and>
      (\<forall>r2. http_oracle ?u (http_count ?u) = Answer r2 \<longrightarrow> status_code r2 \<noteq> 429)"
    by (auto simp: sample_world_def ok_response_def)
  from extract_data_rate_limit_retry [OF a c, of default_endpoint default_limit] e
  have "fst (extract_data default_endpoint default_limit ?u)
      = fst (extract_data default_endpoint default_limit ?w)"
    by blast
  moreover from extract_data_rate_limit_retry [OF a c, of default_endpoint default_limit]
  have "http_count (snd (extract_data default_endpoint default_limit ?w)) = http_count ?w + 2"
    by blast
  moreover from extract_data_rate_limit_retry [OF b c, of default_endpoint default_limit] d
  have "fst (extract_data default_endpoint default_limit ?v) = Inr PyNone"
    by blast
  moreover have "http_count ?w = 0" by (simp add: sample_world_def)
  ultimately show ?thesis by (simp add: extract_after_retry)
qed

text \<open>
  The failures the two \<open>except\<close> clauses do turn into \<open>None\<close>: a transport failure,
  a status from 400 to 599, a body that is not JSON. A JSON object whose \<open>results\<close>,
  when present, has a length is returned as it is.
\<close>

lemma extract_data_caught_failures:
  "(final_outcome w = TransportFailure \<longrightarrow> fst (extract_data endpoint limit w) = Inr PyNone) \<and>
   (\<forall>r. final_outcome w = Answer r \<and> 400 \<le> status_code r \<and> status_code r < 600 \<longrightarrow>
        fst (extract_data endpoint limit w) = Inr PyNone) \<and>
   (\<forall>r. final_outcome w = Answer r \<and> content r = NotJSON \<longrightarrow>
        fst (extract_data endpoint limit w) = Inr PyNone) \<and>
   (\<forall>r kvs n. final_outcome w = Answer r \<and> \<not> (400 \<le> status_code r \<and> status_code r < 600) \<and>
        content r = Parsed (PyDict kvs) \<and>
        py_len (case map_of kvs ''results'' of Some x \<Rightarrow> x | None \<Rightarrow> PyList []) = Inr n \<longrightarrow>
        fst (extract_data endpoint limit w) = Inr (PyDict kvs))"
  by (simp add: extract_data_fst parse_response_def raise_for_status_def response_json_def
        bind_r_def)

lemma pipeline_start_frame:
  assumes "pipeline_start w = (t0, w0)"
  shows "collection w0 = collection w"
    and "store_oracle w0 = store_oracle w"
    and "k \<noteq> ByOrchestrator \<Longrightarrow> events_by k w0 = events_by k w"
  using assms
  by (auto simp: pipeline_start_def now_def emit_simps events_by_emit events_by_update)

lemma extraction_abort_frame:
  assumes "pipeline_start w = (t0, w0)"
    and "extract_data endpoint limit w0 = (r, w1)"
  shows "collection (emit (Print MsgExtractionFailed) w1) = collection w"
    and "events_by ByTransform (emit (Print MsgExtractionFailed) w1) = events_by ByTransform w"
    and "events_by ByLoad (emit (Print MsgExtractionFailed) w1) = events_by ByLoad w"
proof -
  have w1: "w1 = snd (extract_data endpoint limit w0)" using assms(2) by simp
  show "collection (emit (Print MsgExtractionFailed) w1) = collection w"
    by (simp add: w1 emit_simps extract_data_frame pipeline_start_frame [OF assms(1)])
  show "events_by ByTransform (emit (Print MsgExtractionFailed) w1) = events_by ByTransform w"
    by (simp add: w1 events_by_emit extract_data_frame pipeline_start_frame [OF assms(1)])
  show "events_by ByLoad (emit (Print MsgExtractionFailed) w1) = events_by ByLoad w"
    by (simp add: w1 events_by_emit extract_data_frame pipeline_start_frame [OF assms(1)])
qed

lemma transformation_abort_frame:
  assumes "pipeline_start w = (t0, w0)"
    and "extract_data endpoint limit w0 = (r, w1)"
    and "transform_data raw (emit (Print MsgTransformPhase) w1) = (r2, w2)"
  shows "collection (emit (Print MsgTransformationFailed) w2) = collection w"
    and "events_by ByLoad (emit (Print MsgTransformationFailed) w2) = events_by ByLoad w"
proof -
  have w1: "w1 = snd (extract_data endpoint limit w0)" using assms(2) by simp
  have w2: "w2 = snd (transform_data raw (emit (Print MsgTransformPhase) w1))"
    using assms(3) by simp
  show "collection (emit (Print MsgTransformationFailed) w2) = collection w"
    by (simp add: w2 emit_simps transform_data_frame)
       (simp add: w1 extract_data_frame pipeline_start_frame [OF assms(1)])
  show "events_by ByLoad (emit (Print MsgTransformationFailed) w2) = events_by ByLoad w"
    by (simp add: w2 events_by_emit transform_data_frame)
       (simp add: w1 extract_data_frame pipeline_start_frame [OF assms(1)])
qed

text \<open>
  An invocation that returns always leaves an effect of its own in the trace, so a run
  whose trace has no new effect of \<open>transform_data\<close> or of \<open>load_data\<close> did not call it.
\<close>

lemma transform_data_leaves_event:
  assumes "fst (transform_data raw w) = Inr ds"
  shows "length (events_by ByTransform w) < length (events_by ByTransform (snd (transform_data raw w)))"
proof -
  have loop: "events_by ByTransform (snd (transform_loop ps [] w)) =
      events_by ByTransform w
        @ replicate (length (filter raises_in_mapping ps)) (Print MsgTransformError)" for ps
    by (simp add: events_by_def transform_loop_trace)
  from assms show ?thesis
    by (auto simp: transform_data_unfold events_by_emit loop
          split: if_splits sum.splits bool.splits)
qed

lemma load_data_leaves_event:
  "length (events_by ByLoad w) < length (events_by ByLoad (snd (load_data ds w)))"
  by (auto simp: load_data_def load_try_def insert_many_def events_by_emit events_by_update
        split: prod.splits sum.splits)

lemma extract_data_falsy:
  assumes "extract_data endpoint limit w = (Inr raw, w1)" and "\<not> py_truthy raw"
  shows "raw = PyNone \<or> raw = PyDict []"
proof -
  have res: "fst (extract_data endpoint limit w) = Inr raw" using assms(1) by simp
  show ?thesis
  proof (cases "final_outcome w")
    case TransportFailure
    then show ?thesis using res by (simp add: extract_data_fst)
  next
    case (Answer r)
    show ?thesis
    proof (cases "parse_response r")
      case (Inl e)
      then show ?thesis using res Answer by (cases e) (simp_all add: extract_data_fst)
    next
      case (Inr p)
      then have raw: "raw = fst p" using res Answer by (simp add: extract_data_fst)
      from Inr obtain kvs where "fst p = PyDict kvs"
        by (cases "content r"; cases "response_json r")
           (auto simp: parse_response_def bind_r_def response_json_def
              split: sum.splits elim: py_get.elims)
      with raw assms(2) show ?thesis by simp
    qed
  qed
qed


lemma run_etl_pipeline_unfold:
  assumes "pipeline_start w = (t0, w0)"
  shows "run_etl_pipeline w =
     (case extract_data default_endpoint default_limit w0 of
        (Inl e, w1) \<Rightarrow> (Inl e, w1)
      | (Inr raw, w1) \<Rightarrow>
          if \<not> py_truthy raw then (Inr False, emit (Print MsgExtractionFailed) w1)
          else
            (case transform_data raw (emit (Print MsgTransformPhase) w1) of
               (Inl e, w2) \<Rightarrow> (Inl e, w2)
             | (Inr ds, w2) \<Rightarrow>
                 if ds = [] then (Inr False, emit (Print MsgTransformationFailed) w2)
                 else
                   (case load_data ds (emit (Print MsgLoadPhase) w2) of
                      (Inl e, w3) \<Rightarrow> (Inl e, w3)
                    | (Inr loaded_count, w3) \<Rightarrow> pipeline_finish t0 loaded_count w3)))"
  using assms by (simp add: run_etl_pipeline_def)

lemma pipeline_finish_fst: "fst (pipeline_finish t0 n w) = Inr (0 < n)"
  by (simp add: pipeline_finish_def split: prod.splits)

text \<open>
  C1. \<open>run_etl_pipeline\<close> returns true exactly when the load phase is reached and its
  count is positive, and once the load phase is reached it returns \<open>loaded_count > 0\<close>.
  When extraction returns \<open>None\<close> it returns false and all it adds to what
  \<open>extract_data\<close> left is one printed line: no effect of \<open>transform_data\<close> or \<open>load_data\<close>,
  collection untouched. When the transform returns the empty list it returns false with
  no effect of \<open>load_data\<close>.
\<close>

theorem run_etl_pipeline_outcome:
  assumes "pipeline_start w = (t0, w0)"
  shows "(fst (run_etl_pipeline w) = Inr True \<longleftrightarrow>
            (\<exists>raw w1 ds w2 n w3.
               extract_data default_endpoint default_limit w0 = (Inr raw, w1) \<and> py_truthy raw \<and>
               transform_data raw (emit (Print MsgTransformPhase) w1) = (Inr ds, w2) \<and> ds \<noteq> [] \<and>
               load_data ds (emit (Print MsgLoadPhase) w2) = (Inr n, w3) \<and> 0 < n)) \<and>
         (\<forall>raw w1 ds w2 n w3.
            extract_data default_endpoint default_limit w0 = (Inr raw, w1) \<and> py_truthy raw \<and>
            transform_data raw (emit (Print MsgTransformPhase) w1) = (Inr ds, w2) \<and> ds \<noteq> [] \<and>
            load_data ds (emit (Print MsgLoadPhase) w2) = (Inr n, w3) \<longrightarrow>
            fst (run_etl_pipeline w) = Inr (0 < n)) \<and>
         (\<forall>w1. extract_data default_endpoint default_limit w0 = (Inr PyNone, w1) \<longrightarrow>
            run_etl_pipeline w = (Inr False, emit (Print MsgExtractionFailed) w1) \<and>
            events_by ByTransform (snd (run_etl_pipeline w)) = events_by ByTransform w \<and>
            events_by ByLoad (snd (run_etl_pipeline w)) = events_by ByLoad w \<and>
            collection (snd (run_etl_pipeline w)) = collection w) \<and>
         (\<forall>raw w1 w2.
            extract_data default_endpoint default_limit w0 = (Inr raw, w1) \<and> py_truthy raw \<and>
            transform_data raw (emit (Print MsgTransformPhase) w1) = (Inr [], w2) \<longrightarrow>
            run_etl_pipeline w = (Inr False, emit (Print MsgTransformationFailed) w2) \<and>
            events_by ByLoad (snd (run_etl_pipeline w)) = events_by ByLoad w \<and>
            collection (snd (run_etl_pipeline w)) = collection w)"
proof -
  note run = run_etl_pipeline_unfold [OF assms]
  have reached: "fst (run_etl_pipeline w) = Inr (0 < n)"
    if "extract_data default_endpoint default_limit w0 = (Inr raw, w1)" and "py_truthy raw"
      and "transform_data raw (emit (Print MsgTransformPhase) w1) = (Inr ds, w2)" and "ds \<noteq> []"
      and "load_data ds (emit (Print MsgLoadPhase) w2) = (Inr n, w3)"
    for raw w1 ds w2 n w3
    using that by (simp add: run pipeline_finish_fst)
  have only_if: "\<exists>raw w1 ds w2 n w3.
      extract_data default_endpoint default_limit w0 = (Inr raw, w1) \<and> py_truthy raw \<and>
      transform_data raw (emit (Print MsgTransformPhase) w1) = (Inr ds, w2) \<and> ds \<noteq> [] \<and>
      load_data ds (emit (Print MsgLoadPhase) w2) = (Inr n, w3) \<and> 0 < n"
    if t: "fst (run_etl_pipeline w) = Inr True"
  proof -
    obtain r w1 where e: "extract_data default_endpoint default_limit w0 = (r, w1)"
      by (cases "extract_data default_endpoint default_limit w0")
    from t e obtain raw where r: "r = Inr raw" and tr: "py_truthy raw"
      by (cases r) (auto simp: run split: if_splits)
    obtain r2 w2 where x: "transform_data raw (emit (Print MsgTransformPhase) w1) = (r2, w2)"
      by (cases "transform_data raw (emit (Print MsgTransformPhase) w1)")
    from t e r tr x obtain ds where r2: "r2 = Inr ds" and ne: "ds \<noteq> []"
      by (cases r2) (auto simp: run split: if_splits)
    obtain r3 w3 where l: "load_data ds (emit (Print MsgLoadPhase) w2) = (r3, w3)"
      by (cases "load_data ds (emit (Print MsgLoadPhase) w2)")
    from t e r tr x r2 ne l obtain n where r3: "r3 = Inr n" and pos: "0 < n"
      by (cases r3) (auto simp: run pipeline_finish_fst)
    from e r tr x r2 ne l r3 pos show ?thesis by blast
  qed
  have abort1: "run_etl_pipeline w = (Inr False, emit (Print MsgExtractionFailed) w1) \<and>
      events_by ByTransform (snd (run_etl_pipeline w)) = events_by ByTransform w \<and>
      events_by ByLoad (snd (run_etl_pipeline w)) = events_by ByLoad w \<and>
      collection (snd (run_etl_pipeline w)) = collection w"
    if "extract_data default_endpoint default_limit w0 = (Inr PyNone, w1)" for w1
    using that extraction_abort_frame [OF assms that] by (simp add: run)
  have abort2: "run_etl_pipeline w = (Inr False, emit (Print MsgTransformationFailed) w2) \<and>
      events_by ByLoad (snd (run_etl_pipeline w)) = events_by ByLoad w \<and>
      collection (snd (run_etl_pipeline w)) = collection w"
    if "extract_data default_endpoint default_limit w0 = (Inr raw, w1)" and "py_truthy raw"
      and "transform_data raw (emit (Print MsgTransformPhase) w1) = (Inr [], w2)"
    for raw w1 w2
    using that transformation_abort_frame [OF assms that(1) that(3)] by (simp add: run)
  have iff: "fst (run_etl_pipeline w) = Inr True \<longleftrightarrow>
      (\<exists>raw w1 ds w2 n w3.
         extract_data default_endpoint default_limit w0 = (Inr raw, w1) \<and> py_truthy raw \<and>
         transform_data raw (emit (Print MsgTransformPhase) w1) = (Inr ds, w2) \<and> ds \<noteq> [] \<and>
         load_data ds (emit (Print MsgLoadPhase) w2) = (Inr n, w3) \<and> 0 < n)"
    (is "?lhs \<longleftrightarrow> ?rhs")
  proof
    assume ?lhs
    then show ?rhs by (rule only_if)
  next
    assume ?rhs
    then obtain raw w1 ds w2 n w3 where
      "extract_data default_endpoint default_limit w0 = (Inr raw, w1)" "py_truthy raw"
      "transform_data raw (emit (Print MsgTransformPhase) w1) = (Inr ds, w2)" "ds \<noteq> []"
      "load_data ds (emit (Print MsgLoadPhase) w2) = (Inr n, w3)" "0 < n"
      by blast
    then show ?lhs using reached [of raw w1 ds w2 n w3] by simp
  qed
  have all_reached: "\<forall>raw w1 ds w2 n w3.
      extract_data default_endpoint default_limit w0 = (Inr raw, w1) \<and> py_truthy raw \<and>
      transform_data raw (emit (Print MsgTransformPhase) w1) = (Inr ds, w2) \<and> ds \<noteq> [] \<and>
      load_data ds (emit (Print MsgLoadPhase) w2) = (Inr n, w3) \<longrightarrow>
      fst (run_etl_pipeline w) = Inr (0 < n)"
    using reached by blast
  have all_abort1: "\<forall>w1. extract_data default_endpoint default_limit w0 = (Inr PyNone, w1) \<longrightarrow>
      run_etl_pipeline w = (Inr False, emit (Print MsgExtractionFailed) w1) \<and>
      events_by ByTransform (snd (run_etl_pipeline w)) = events_by ByTransform w \<and>
      events_by ByLoad (snd (run_etl_pipeline w)) = events_by ByLoad w \<and>
      collection (snd (run_etl_pipeline w)) = collection w"
    using abort1 by blast
  have all_abort2: "\<forall>raw w1 w2.
      extract_data default_endpoint default_limit w0 = (Inr raw, w1) \<and> py_truthy raw \<and>
      transform_data raw (emit (Print MsgTransformPhase) w1) = (Inr [], w2) \<longrightarrow>
      run_etl_pipeline w = (Inr False, emit (Print MsgTransformationFailed) w2) \<and>
      events_by ByLoad (snd (run_etl_pipeline w)) = events_by ByLoad w \<and>
      collection (snd (run_etl_pipeline w)) = collection w"
    using abort2 by blast
  from iff all_reached all_abort1 all_abort2 show ?thesis by (intro conjI)
qed

text \<open>
  C10. The abort after the extract phase is taken for every falsy result of
  \<open>extract_data\<close>, which is \<open>None\<close> or the empty dict: the orchestrator returns false and
  adds one printed line to what \<open>extract_data\<close> left, with no effect of \<open>transform_data\<close>
  or \<open>load_data\<close>.
\<close>

theorem run_etl_pipeline_falsy_extraction:
  assumes "pipeline_start w = (t0, w0)"
    and "extract_data default_endpoint default_limit w0 = (Inr raw, w1)"
    and "\<not> py_truthy raw"
  shows "run_etl_pipeline w = (Inr False, emit (Print MsgExtractionFailed) w1) \<and>
         (raw = PyNone \<or> raw = PyDict []) \<and>
         events_by ByTransform (snd (run_etl_pipeline w)) = events_by ByTransform w \<and>
         events_by ByLoad (snd (run_etl_pipeline w)) = events_by ByLoad w \<and>
         collection (snd (run_etl_pipeline w)) = collection w"
  using assms extraction_abort_frame [OF assms(1) assms(2)] extract_data_falsy [OF assms(2) assms(3)]
  by (simp add: run_etl_pipeline_unfold [OF assms(1)])


lemma sample_start:
  "http_oracle (snd (pipeline_start (sample_world rs st))) =
     (\<lambda>n. if n < length rs then rs ! n else TransportFailure)"
  "http_count (snd (pipeline_start (sample_world rs st))) = 0"
  "clock_oracle (snd (pipeline_start (sample_world rs st))) = (\<lambda>n. 1000 + int n)"
  "clock_count (snd (pipeline_start (sample_world rs st))) = 1"
  "store_oracle (snd (pipeline_start (sample_world rs st))) = st"
  "collection (snd (pipeline_start (sample_world rs st))) = []"
  by (simp_all add: pipeline_start_def now_def emit_def sample_world_def)

lemma sample_events:
  "events_by k (sample_world rs st) = []"
  "collection (sample_world rs st) = []"
  by (simp_all add: events_by_def sample_world_def)

lemma sample_extract:
  "py_len (case map_of kvs ''results'' of Some x \<Rightarrow> x | None \<Rightarrow> PyList []) = Inr n \<Longrightarrow>
   fst (extract_data default_endpoint default_limit
          (snd (pipeline_start (sample_world [ok_response (PyDict kvs)] st)))) = Inr (PyDict kvs)"
  by (simp add: extract_data_fst final_outcome_def sample_start ok_response_def
        parse_response_def raise_for_status_def response_json_def bind_r_def)

lemma sample_extract_none:
  "fst (extract_data default_endpoint default_limit
          (snd (pipeline_start (sample_world [] st)))) = Inr PyNone"
  by (simp add: extract_data_fst final_outcome_def sample_start)

theorem run_etl_pipeline_outcome_witness:
  "fst (run_etl_pipeline (sample_world [ok_response sample_body] accepting_store)) = Inr True \<and>
   fst (run_etl_pipeline (sample_world [ok_response sample_body] failing_store)) = Inr False \<and>
   fst (run_etl_pipeline (sample_world [] accepting_store)) = Inr False \<and>
   events_by ByTransform (snd (run_etl_pipeline (sample_world [] accepting_store))) = [] \<and>
   events_by ByLoad (snd (run_etl_pipeline (sample_world [] accepting_store))) = [] \<and>
   fst (run_etl_pipeline
          (sample_world [ok_response (PyDict [(''results'', PyList [])])] accepting_store))
     = Inr False \<and>
   events_by ByLoad (snd (run_etl_pipeline
          (sample_world [ok_response (PyDict [(''results'', PyList [])])] accepting_store))) = []"
proof -
  have reach: "fst (run_etl_pipeline (sample_world [ok_response sample_body] st)) = Inr (0 < n)"
    if n: "n = (case fst (st [] [sample_doc 1001]) of Inl e \<Rightarrow> 0 | Inr ids \<Rightarrow> length ids)"
    for st n
  proof -
    let ?W = "sample_world [ok_response sample_body] st"
    let ?w0 = "snd (pipeline_start ?W)"
    let ?E = "extract_data default_endpoint default_limit ?w0"
    let ?w1 = "emit (Print MsgTransformPhase) (snd ?E)"
    let ?T = "transform_data sample_body ?w1"
    let ?w2 = "emit (Print MsgLoadPhase) (snd ?T)"
    let ?L = "load_data [sample_doc 1001] ?w2"
    have s: "pipeline_start ?W = (fst (pipeline_start ?W), ?w0)" by simp
    have e: "?E = (Inr sample_body, snd ?E)"
      by (simp add: prod_eq_iff sample_body_def sample_extract [of _ 1])
    have tr: "py_truthy sample_body" by (simp add: sample_body_def)
    have "fst ?T = Inr [sample_doc 1001]"
      unfolding sample_body_def
      by (subst transform_data_results [of _ "PyList [sample_pulse]" "[sample_pulse]"])
         (simp_all add: record_fields_sample emit_simps extract_data_frame sample_start)
    then have x: "?T = (Inr [sample_doc 1001], snd ?T)" by (simp add: prod_eq_iff)
    have ne: "[sample_doc 1001] \<noteq> []" by simp
    have so: "store_oracle ?w2 = st" "collection ?w2 = []"
      by (simp_all add: emit_simps transform_data_frame extract_data_frame sample_start)
    have "fst ?L = Inr n"
      using n
      by (cases "st [] [sample_doc 1001]")
         (simp add: load_data_def load_try_def insert_many_def so split: sum.splits)
    then have l: "?L = (Inr n, snd ?L)" by (simp add: prod_eq_iff)
    from run_etl_pipeline_outcome [OF s] e tr x ne l show ?thesis by blast
  qed
  have ok: "fst (run_etl_pipeline (sample_world [ok_response sample_body] accepting_store)) = Inr True"
    using reach [of 1 accepting_store] by (simp add: accepting_store_def)
  have store: "fst (run_etl_pipeline (sample_world [ok_response sample_body] failing_store)) = Inr False"
    using reach [of 0 failing_store] by (simp add: failing_store_def)
  have none: "fst (run_etl_pipeline (sample_world [] accepting_store)) = Inr False \<and>
      events_by ByTransform (snd (run_etl_pipeline (sample_world [] accepting_store))) = [] \<and>
      events_by ByLoad (snd (run_etl_pipeline (sample_world [] accepting_store))) = []"
  proof -
    let ?W = "sample_world [] accepting_store"
    let ?w0 = "snd (pipeline_start ?W)"
    let ?E = "extract_data default_endpoint default_limit ?w0"
    have s: "pipeline_start ?W = (fst (pipeline_start ?W), ?w0)" by simp
    have e: "?E = (Inr PyNone, snd ?E)"
      by (simp add: prod_eq_iff sample_extract_none)
    from run_etl_pipeline_outcome [OF s] e
    have "run_etl_pipeline ?W = (Inr False, emit (Print MsgExtractionFailed) (snd ?E)) \<and>
        events_by ByTransform (snd (run_etl_pipeline ?W)) = events_by ByTransform ?W \<and>
        events_by ByLoad (snd (run_etl_pipeline ?W)) = events_by ByLoad ?W \<and>
        collection (snd (run_etl_pipeline ?W)) = collection ?W"
      by blast
    then have "fst (run_etl_pipeline ?W) = Inr False \<and>
        events_by ByTransform (snd (run_etl_pipeline ?W)) = events_by ByTransform ?W \<and>
        events_by ByLoad (snd (run_etl_pipeline ?W)) = events_by ByLoad ?W"
      by (metis fst_conv)
    then show ?thesis by (simp only: sample_events simp_thms)
  qed
  have empty: "fst (run_etl_pipeline
        (sample_world [ok_response (PyDict [(''results'', PyList [])])] accepting_store))
      = Inr False \<and>
      events_by ByLoad (snd (run_etl_pipeline
        (sample_world [ok_response (PyDict [(''results'', PyList [])])] accepting_store))) = []"
  proof -
    let ?raw = "PyDict [(''results'', PyList [])]"
    let ?W = "sample_world [ok_response ?raw] accepting_store"
    let ?w0 = "snd (pipeline_start ?W)"
    let ?E = "extract_data default_endpoint default_limit ?w0"
    let ?w1 = "emit (Print MsgTransformPhase) (snd ?E)"
    let ?T = "transform_data ?raw ?w1"
    have s: "pipeline_start ?W = (fst (pipeline_start ?W), ?w0)" by simp
    have e: "?E = (Inr ?raw, snd ?E)"
      by (simp add: prod_eq_iff sample_extract [of _ 0])
    have tr: "py_truthy ?raw" by simp
    have "fst ?T = Inr []"
      by (subst transform_data_results [of _ "PyList []" "[]"]) simp_all
    then have x: "?T = (Inr [], snd ?T)" by (simp add: prod_eq_iff)
    from run_etl_pipeline_outcome [OF s] e tr x
    have "run_etl_pipeline ?W = (Inr False, emit (Print MsgTransformationFailed) (snd ?T)) \<and>
        events_by ByLoad (snd (run_etl_pipeline ?W)) = events_by ByLoad ?W \<and>
        collection (snd (run_etl_pipeline ?W)) = collection ?W"
      by blast
    then have "fst (run_etl_pipeline ?W) = Inr False \<and>
        events_by ByLoad (snd (run_etl_pipeline ?W)) = events_by ByLoad ?W"
      by (metis fst_conv)
    then show ?thesis by (simp only: sample_events simp_thms)
  qed
  from ok store none empty show ?thesis by simp
qed

theorem run_etl_pipeline_falsy_extraction_witness:
  "fst (extract_data default_endpoint default_limit
          (snd (pipeline_start (sample_world [ok_response (PyDict [])] accepting_store))))
     = Inr (PyDict []) \<and>
   fst (run_etl_pipeline (sample_world [ok_response (PyDict [])] accepting_store)) = Inr False \<and>
   events_by ByTransform
     (snd (run_etl_pipeline (sample_world [ok_response (PyDict [])] accepting_store))) = [] \<and>
   events_by ByLoad
     (snd (run_etl_pipeline (sample_world [ok_response (PyDict [])] accepting_store))) = []"
proof -
  let ?W = "sample_world [ok_response (PyDict [])] accepting_store"
  let ?w0 = "snd (pipeline_start ?W)"
  let ?E = "extract_data default_endpoint default_limit ?w0"
  have s: "pipeline_start ?W = (fst (pipeline_start ?W), ?w0)" by simp
  have f: "fst ?E = Inr (PyDict [])" by (simp add: sample_extract [of _ 0])
  then have e: "?E = (Inr (PyDict []), snd ?E)" by (simp add: prod_eq_iff)
  have falsy: "\<not> py_truthy (PyDict [])" by simp
  from run_etl_pipeline_falsy_extraction [OF s e falsy]
  have "fst (run_etl_pipeline ?W) = Inr False \<and>
      events_by ByTransform (snd (run_etl_pipeline ?W)) = events_by ByTransform ?W \<and>
      events_by ByLoad (snd (run_etl_pipeline ?W)) = events_by ByLoad ?W"
    by (metis fst_conv)
  with f show ?thesis by (simp only: sample_events simp_thms)
qed


lemma sample_extract_raises:
  "fst (extract_data default_endpoint default_limit
          (snd (pipeline_start (sample_world [ok_response (PyList [])] st)))) = Inl AttributeError"
  by (simp add: extract_data_fst final_outcome_def sample_start ok_response_def
        parse_response_def raise_for_status_def response_json_def bind_r_def)

lemma run_etl_pipeline_extract_raises:
  assumes "fst (extract_data default_endpoint default_limit (snd (pipeline_start w))) = Inl e"
  shows "fst (run_etl_pipeline w) = Inl e"
proof -
  have s: "pipeline_start w = (fst (pipeline_start w), snd (pipeline_start w))" by simp
  from assms show ?thesis
    by (cases "extract_data default_endpoint default_limit (snd (pipeline_start w))")
       (simp add: run_etl_pipeline_unfold [OF s])
qed

text \<open>
  C4. \<open>extract_data\<close> is to turn every transport failure and every malformed or
  unexpectedly structured body into \<open>None\<close> and to raise nothing. The code does not:
  with status 200 and the body \<open>[]\<close>, valid JSON that is not an object, the log line at
  line 49 raises \<open>AttributeError\<close>; with the body \<open>{"results": null}\<close> it raises
  \<open>TypeError\<close>. Neither is a \<open>RequestException\<close> or a \<open>JSONDecodeError\<close>, so both leave
  \<open>extract_data\<close>, and \<open>run_etl_pipeline\<close>, which calls it outside any \<open>try\<close>, ends
  with the exception instead of a boolean.
\<close>

theorem extract_data_uncaught_exception:
  "fst (extract_data default_endpoint default_limit
          (sample_world [ok_response (PyList [])] accepting_store)) = Inl AttributeError \<and>
   fst (extract_data default_endpoint default_limit
          (sample_world [ok_response (PyDict [(''results'', PyNone)])] accepting_store))
     = Inl TypeError \<and>
   fst (run_etl_pipeline (sample_world [ok_response (PyList [])] accepting_store))
     = Inl AttributeError"
proof -
  have "fst (extract_data default_endpoint default_limit
          (sample_world [ok_response (PyList [])] accepting_store)) = Inl AttributeError"
    by (simp add: extract_data_def extract_except_def extract_try_def requests_get_def
          after_response_def parse_response_def raise_for_status_def response_json_def
          bind_r_def emit_def sample_world_def ok_response_def Let_def)
  moreover have "fst (extract_data default_endpoint default_limit
          (sample_world [ok_response (PyDict [(''results'', PyNone)])] accepting_store))
      = Inl TypeError"
    by (simp add: extract_data_def extract_except_def extract_try_def requests_get_def
          after_response_def parse_response_def raise_for_status_def response_json_def
          bind_r_def emit_def sample_world_def ok_response_def Let_def)
  moreover have "fst (run_etl_pipeline (sample_world [ok_response (PyList [])] accepting_store))
      = Inl AttributeError"
    by (rule run_etl_pipeline_extract_raises) (rule sample_extract_raises)
  ultimately show ?thesis by simp
qed

end
